theory Spec2Isabelle
  imports Main "HOL-Library.Word"
begin

unbundle bit_operations_syntax

section \<open>Strings, bytes and the browser state\<close>

text \<open>
  A JavaScript string is a sequence of 16-bit code units; a \<open>Uint8Array\<close> is a
  sequence of bytes. \<open>str\<close> writes a string literal of ASCII characters.
\<close>

type_synonym byte = "8 word"
type_synonym code_unit = "16 word"
type_synonym jsstring = "code_unit list"

definition str :: "string \<Rightarrow> jsstring" where
  "str cs = map of_char cs"

text \<open>
  \<open>String.prototype.toLowerCase\<close> is the platform's and follows the Unicode case
  mappings. The registry below takes it as the parameter \<open>toLowerCase\<close>, and
  every general statement holds for any function in its place. \<open>asciiLowerCase\<close>
  is what it does on a string of ASCII characters, where only the code units \<open>A\<close>
  to \<open>Z\<close> change; it is used to run the registry on ASCII addresses and names.
\<close>

definition lower_unit :: "code_unit \<Rightarrow> code_unit" where
  "lower_unit c = (if 0x41 \<le> c \<and> c \<le> 0x5A then c + 0x20 else c)"

definition asciiLowerCase :: "jsstring \<Rightarrow> jsstring" where
  "asciiLowerCase s = map lower_unit s"

text \<open>
  The failures of the module. The source has no error classes of its own: it
  reports through \<open>ElMessage.error\<close> and lets the rejections of the platform's
  primitives propagate. The names are the ones of the specification's taxonomy;
  \<open>MalformedBlobError\<close> is listed there and raised nowhere in the source.
\<close>

datatype error =
    NoPasswordError         \<comment> \<open>\<open>ElMessage.error\<close> "password not set"\<close>
  | AddressNotFoundError    \<comment> \<open>\<open>ElMessage.error\<close> "address not found"\<close>
  | KeyDerivationError      \<comment> \<open>\<open>crypto.subtle.deriveKey\<close> rejected\<close>
  | EncryptionError         \<comment> \<open>\<open>crypto.subtle.encrypt\<close> rejected\<close>
  | AuthenticationError     \<comment> \<open>\<open>crypto.subtle.decrypt\<close> rejected\<close>
  | MalformedBlobError
  | ParseError              \<comment> \<open>\<open>JSON.parse\<close> threw\<close>
  | TypeError               \<comment> \<open>a property of \<open>null\<close> was read\<close>
  | StorageReadError        \<comment> \<open>\<open>ElMessage.error\<close> "error reading the storage"\<close>
  | StorageWriteError       \<comment> \<open>\<open>ElMessage.error\<close> "error writing the storage"\<close>
  | ConnectError            \<comment> \<open>\<open>ElMessage.error\<close> "connection error"\<close>

datatype storage_op = GetItem jsstring | SetItem jsstring jsstring

text \<open>
  The state the module shares with the page: the session password
  (\<open>storagePassword.value\<close>, \<open>None\<close> for \<open>null\<close>), \<open>localStorage\<close> with the log
  of its reads and writes, the messages shown through \<open>ElMessage.error\<close>, and the
  random source behind \<open>crypto.getRandomValues\<close>: an endless supply of bytes
  and the number drawn so far.
\<close>

record browser =
  storagePassword :: "jsstring option"
  localStorage :: "jsstring \<rightharpoonup> jsstring"
  storageLog :: "storage_op list"
  messages :: "error list"
  entropy :: "nat \<Rightarrow> byte"
  drawn :: nat

definition notify :: "error \<Rightarrow> 'z browser_scheme \<Rightarrow> 'z browser_scheme" where
  "notify e s = s\<lparr>messages := messages s @ [e]\<rparr>"

text \<open>JavaScript's truthiness of a value that is a string, \<open>null\<close> or \<open>undefined\<close>.\<close>

definition truthy :: "jsstring option \<Rightarrow> bool" where
  "truthy v = (case v of None \<Rightarrow> False | Some s \<Rightarrow> s \<noteq> [])"

section \<open>The account registry\<close>

record account =
  address :: jsstring
  privateKey :: jsstring

datatype status = AUTHORIZING | UNAUTHORIZED | ONLINE

text \<open>What \<open>socket.emit\<close> sends, oldest first in the registry's \<open>emitted\<close>.\<close>

datatype event =
    AddAddress jsstring jsstring nat        \<comment> \<open>blockchain, address, version\<close>
  | RemoveAddress jsstring jsstring         \<comment> \<open>blockchain, address\<close>
  | Response jsstring bool "jsstring option"  \<comment> \<open>message id, success, signature\<close>

record challenge =
  messageId :: jsstring
  payload_blockchain :: jsstring
  payload_address :: jsstring
  dataToSign :: jsstring

text \<open>
  The closure state of \<open>useAccountsStorage\<close>: the reactive account list, the status
  map and the socket, on top of the browser state.
\<close>

record registry = browser +
  accounts :: "account list"
  accountsStatus :: "jsstring \<rightharpoonup> status"
  emitted :: "event list"

definition version :: nat where
  "version = 2"

definition emit :: "event \<Rightarrow> registry \<Rightarrow> registry" where
  "emit e r = r\<lparr>emitted := emitted r @ [e]\<rparr>"

definition getAccountByAddress ::
  "(jsstring \<Rightarrow> jsstring) \<Rightarrow> account list \<Rightarrow> jsstring option \<Rightarrow> account option" where
  "getAccountByAddress toLowerCase accs addr =
     find (\<lambda>account. Some (toLowerCase (address account)) = map_option toLowerCase addr) accs"

text \<open>\<open>Array.prototype.indexOf\<close>: the first index holding the value, or \<open>-1\<close>.\<close>

fun indexOf :: "'a list \<Rightarrow> 'a \<Rightarrow> int" where
  "indexOf [] x = -1"
| "indexOf (y # ys) x =
     (if y = x then 0 else (let i = indexOf ys x in if i < 0 then -1 else i + 1))"

text \<open>
  \<open>Array.prototype.splice(start, deleteCount)\<close>: a negative start counts from the
  end, and both arguments are clamped to the array.
\<close>

definition splice :: "int \<Rightarrow> int \<Rightarrow> 'a list \<Rightarrow> 'a list" where
  "splice start deleteCount xs =
     (let len = int (length xs);
          actualStart = (if start < 0 then max (len + start) 0 else min start len);
          actualDeleteCount = min (max deleteCount 0) (len - actualStart)
      in take (nat actualStart) xs @ drop (nat (actualStart + actualDeleteCount)) xs)"

definition createAddress :: "(jsstring option \<Rightarrow> account) \<Rightarrow> registry \<Rightarrow> registry" where
  "createAddress create r = r\<lparr>accounts := accounts r @ [create None]\<rparr>"

text \<open>
  \<open>removeAddress\<close> looks the account up and then tests the address, not the
  account. The search key of \<open>indexOf\<close> is \<open>undefined\<close> when the lookup found
  nothing, which no element of the list equals.
\<close>

definition removeAddress ::
  "(jsstring \<Rightarrow> jsstring) \<Rightarrow> jsstring \<Rightarrow> jsstring option \<Rightarrow> registry
     \<Rightarrow> (error + unit) \<times> registry" where
  "removeAddress toLowerCase blockchain addr r =
     (let account = getAccountByAddress toLowerCase (accounts r) addr in
      case addr of
        None \<Rightarrow> (Inl AddressNotFoundError, notify AddressNotFoundError r)
      | Some a \<Rightarrow>
          if \<not> truthy addr then (Inl AddressNotFoundError, notify AddressNotFoundError r)
          else
            (let r1 = emit (RemoveAddress blockchain a) r;
                 r2 = r1\<lparr>accountsStatus := (accountsStatus r1)(toLowerCase a := None)\<rparr>;
                 r3 = r2\<lparr>accounts := splice (indexOf (map Some (accounts r2)) account) 1 (accounts r2)\<rparr>
             in (Inr (), r3)))"

definition reconnectAddress ::
  "(jsstring \<Rightarrow> jsstring) \<Rightarrow> jsstring \<Rightarrow> jsstring option \<Rightarrow> registry
     \<Rightarrow> (error + unit) \<times> registry" where
  "reconnectAddress toLowerCase blockchain addr r =
     (case (getAccountByAddress toLowerCase (accounts r) addr, addr) of
        (Some account, Some a) \<Rightarrow>
          (let r1 = r\<lparr>accountsStatus := (accountsStatus r)(a \<mapsto> AUTHORIZING)\<rparr>
           in (Inr (), emit (AddAddress blockchain a version) r1))
      | _ \<Rightarrow> (Inl AddressNotFoundError, notify AddressNotFoundError r))"

fun reconnectEach :: "jsstring \<Rightarrow> account list \<Rightarrow> registry \<Rightarrow> registry" where
  "reconnectEach blockchain [] r = r"
| "reconnectEach blockchain (account # rest) r =
     reconnectEach blockchain rest
       (emit (AddAddress blockchain (address account) version)
          (r\<lparr>accountsStatus := (accountsStatus r)(address account \<mapsto> AUTHORIZING)\<rparr>))"

definition reconnectAllAddresses :: "jsstring \<Rightarrow> registry \<Rightarrow> registry" where
  "reconnectAllAddresses blockchain r = reconnectEach blockchain (accounts r) r"

text \<open>The handler of \<open>watch(accounts, ..., { immediate: true })\<close>: one pass over the list.\<close>

fun announceEach ::
  "(jsstring \<Rightarrow> jsstring) \<Rightarrow> jsstring \<Rightarrow> account list \<Rightarrow> registry \<Rightarrow> registry" where
  "announceEach toLowerCase blockchain [] r = r"
| "announceEach toLowerCase blockchain (account # rest) r =
     announceEach toLowerCase blockchain rest
       (if accountsStatus r (toLowerCase (address account)) = None
        then emit (AddAddress blockchain (address account) version)
               (r\<lparr>accountsStatus := (accountsStatus r)(toLowerCase (address account) \<mapsto> AUTHORIZING)\<rparr>)
        else r)"

definition accountsWatch :: "(jsstring \<Rightarrow> jsstring) \<Rightarrow> jsstring \<Rightarrow> registry \<Rightarrow> registry" where
  "accountsWatch toLowerCase blockchain r = announceEach toLowerCase blockchain (accounts r) r"

text \<open>The socket handlers.\<close>

definition onConnectError :: "registry \<Rightarrow> registry" where
  "onConnectError r = notify ConnectError r"

definition onConnect :: "jsstring \<Rightarrow> registry \<Rightarrow> registry" where
  "onConnect blockchain r = reconnectAllAddresses blockchain r"

definition onDisconnect :: "registry \<Rightarrow> registry" where
  "onDisconnect r = r\<lparr>accountsStatus := Map.empty\<rparr>"

definition addressAuthChallenge ::
  "(jsstring \<Rightarrow> jsstring) \<Rightarrow> jsstring \<Rightarrow> (account \<Rightarrow> jsstring \<Rightarrow> jsstring) \<Rightarrow> challenge
     \<Rightarrow> registry \<Rightarrow> registry" where
  "addressAuthChallenge toLowerCase blockchain sign message r =
     (if toLowerCase (payload_blockchain message) \<noteq> toLowerCase blockchain then r
      else
        (case getAccountByAddress toLowerCase (accounts r) (Some (payload_address message)) of
           Some account \<Rightarrow>
             emit (Response (messageId message) True (Some (sign account (dataToSign message)))) r
         | None \<Rightarrow>
             emit (Response (messageId message) False None) (notify AddressNotFoundError r)))"

definition addressAuthChallengeFailed ::
  "(jsstring \<Rightarrow> jsstring) \<Rightarrow> jsstring \<Rightarrow> registry \<Rightarrow> registry" where
  "addressAuthChallengeFailed toLowerCase addr r =
     r\<lparr>accountsStatus := (accountsStatus r)(toLowerCase addr \<mapsto> UNAUTHORIZED)\<rparr>"

definition addressAuthChallengeSuccess ::
  "(jsstring \<Rightarrow> jsstring) \<Rightarrow> jsstring \<Rightarrow> registry \<Rightarrow> registry" where
  "addressAuthChallengeSuccess toLowerCase addr r =
     r\<lparr>accountsStatus := (accountsStatus r)(toLowerCase addr \<mapsto> ONLINE)\<rparr>"

section \<open>Text encoding\<close>

text \<open>
  \<open>TextEncoder.encode\<close> and \<open>TextDecoder.decode\<close> belong to the platform, not to
  the module. They are written out after the Encoding Standard, with code points as
  natural numbers, \<open>byte & 0x3F\<close> as \<open>mod 0x40\<close> and \<open>(cp << 6) | x\<close> as
  \<open>cp * 0x40 + x\<close>.

  Encoding first turns the string into scalar values: a lead surrogate followed by a
  trail surrogate is one code point, any other surrogate becomes U+FFFD.
\<close>

definition is_lead :: "code_unit \<Rightarrow> bool" where
  "is_lead c = (0xD800 \<le> unat c \<and> unat c \<le> 0xDBFF)"

definition is_trail :: "code_unit \<Rightarrow> bool" where
  "is_trail c = (0xDC00 \<le> unat c \<and> unat c \<le> 0xDFFF)"

fun code_points :: "jsstring \<Rightarrow> nat list" where
  "code_points [] = []"
| "code_points [c] = [if is_lead c \<or> is_trail c then 0xFFFD else unat c]"
| "code_points (c # d # cs) =
     (if is_lead c \<and> is_trail d
      then (0x10000 + (unat c - 0xD800) * 0x400 + (unat d - 0xDC00)) # code_points cs
      else (if is_lead c \<or> is_trail c then 0xFFFD else unat c) # code_points (d # cs))"

definition utf8_bytes :: "nat \<Rightarrow> byte list" where
  "utf8_bytes cp =
     (if cp < 0x80 then [of_nat cp]
      else if cp < 0x800 then
        [of_nat (0xC0 + cp div 0x40), of_nat (0x80 + cp mod 0x40)]
      else if cp < 0x10000 then
        [of_nat (0xE0 + cp div 0x1000), of_nat (0x80 + cp div 0x40 mod 0x40),
         of_nat (0x80 + cp mod 0x40)]
      else
        [of_nat (0xF0 + cp div 0x40000), of_nat (0x80 + cp div 0x1000 mod 0x40),
         of_nat (0x80 + cp div 0x40 mod 0x40), of_nat (0x80 + cp mod 0x40)])"

definition utf8_encode :: "jsstring \<Rightarrow> byte list" where
  "utf8_encode s = concat (map utf8_bytes (code_points s))"

text \<open>
  The UTF-8 decoder of the Encoding Standard, not fatal: the code point collected so
  far, the continuation bytes still needed, and the bounds of the next byte. A byte
  outside the bounds ends the sequence with U+FFFD and is read again as the start of
  the next one.
\<close>

function utf8_decoder :: "nat \<Rightarrow> nat \<Rightarrow> nat \<Rightarrow> nat \<Rightarrow> byte list \<Rightarrow> nat list" where
  "utf8_decoder cp needed lower upper [] = (if needed \<noteq> 0 then [0xFFFD] else [])"
| "utf8_decoder cp needed lower upper (b # bs) =
     (let n = unat b in
      if needed = 0 then
        if n \<le> 0x7F then n # utf8_decoder 0 0 0x80 0xBF bs
        else if 0xC2 \<le> n \<and> n \<le> 0xDF then utf8_decoder (n mod 0x20) 1 0x80 0xBF bs
        else if 0xE0 \<le> n \<and> n \<le> 0xEF then
          utf8_decoder (n mod 0x10) 2 (if n = 0xE0 then 0xA0 else 0x80)
            (if n = 0xED then 0x9F else 0xBF) bs
        else if 0xF0 \<le> n \<and> n \<le> 0xF4 then
          utf8_decoder (n mod 8) 3 (if n = 0xF0 then 0x90 else 0x80)
            (if n = 0xF4 then 0x8F else 0xBF) bs
        else 0xFFFD # utf8_decoder 0 0 0x80 0xBF bs
      else if n < lower \<or> upper < n then 0xFFFD # utf8_decoder 0 0 0x80 0xBF (b # bs)
      else if needed = 1 then (cp * 0x40 + n mod 0x40) # utf8_decoder 0 0 0x80 0xBF bs
      else utf8_decoder (cp * 0x40 + n mod 0x40) (needed - 1) 0x80 0xBF bs)"
  by pat_completeness auto
termination
  by (relation "measure (\<lambda>(cp, needed, lower, upper, bs). 2 * length bs + (if needed = 0 then 0 else 1))")
     auto

text \<open>With \<open>ignoreBOM\<close> at its default, a leading U+FEFF is dropped from the output.\<close>

definition strip_bom :: "nat list \<Rightarrow> nat list" where
  "strip_bom cps = (case cps of [] \<Rightarrow> [] | cp # rest \<Rightarrow> if cp = 0xFEFF then rest else cps)"

definition utf16_units :: "nat \<Rightarrow> code_unit list" where
  "utf16_units cp =
     (if cp < 0x10000 then [of_nat cp]
      else [of_nat (0xD800 + (cp - 0x10000) div 0x400),
            of_nat (0xDC00 + (cp - 0x10000) mod 0x400)])"

definition utf8_decode :: "byte list \<Rightarrow> jsstring" where
  "utf8_decode bytes = concat (map utf16_units (strip_bom (utf8_decoder 0 0 0x80 0xBF bytes)))"

text \<open>A Unicode scalar value: a code point that is not a surrogate.\<close>

definition scalar :: "nat \<Rightarrow> bool" where
  "scalar cp = (cp < 0x110000 \<and> \<not> (0xD800 \<le> cp \<and> cp \<le> 0xDFFF))"

text \<open>\<open>String.prototype.isWellFormed\<close>: no surrogate without its partner.\<close>

fun well_formed :: "jsstring \<Rightarrow> bool" where
  "well_formed [] = True"
| "well_formed [c] = (\<not> is_lead c \<and> \<not> is_trail c)"
| "well_formed (c # d # cs) =
     (if is_lead c then is_trail d \<and> well_formed cs
      else \<not> is_trail c \<and> well_formed (d # cs))"

section \<open>Encryption\<close>

text \<open>
  PBKDF2 and AES-GCM are the platform's (\<open>crypto.subtle\<close>); the module is
  verified against any implementation of them. \<open>pbkdf2\<close> takes the hash, the
  iteration count, the key length in bits, the password and the salt; the cipher
  takes the key, the nonce and the data, and returns the ciphertext with its tag
  appended. \<open>None\<close> is a rejected promise.
\<close>

datatype hash_alg = SHA_1 | SHA_256 | SHA_384 | SHA_512

record crypto =
  pbkdf2 :: "hash_alg \<Rightarrow> nat \<Rightarrow> nat \<Rightarrow> byte list \<Rightarrow> byte list \<Rightarrow> byte list option"
  aes_gcm_encrypt :: "byte list \<Rightarrow> byte list \<Rightarrow> byte list \<Rightarrow> byte list option"
  aes_gcm_decrypt :: "byte list \<Rightarrow> byte list \<Rightarrow> byte list \<Rightarrow> byte list option"

definition getRandomValues :: "nat \<Rightarrow> 'z browser_scheme \<Rightarrow> byte list \<times> 'z browser_scheme" where
  "getRandomValues n s = (map (entropy s) [drawn s ..< drawn s + n], s\<lparr>drawn := drawn s + n\<rparr>)"

text \<open>\<open>TypedArray.prototype.slice(begin, end)\<close> with both arguments non-negative.\<close>

definition slice :: "nat \<Rightarrow> nat \<Rightarrow> 'a list \<Rightarrow> 'a list" where
  "slice b e xs = take (e - b) (drop b xs)"

text \<open>
  The blob as a string, one code unit per byte
  (\<open>Array.from(bytes).map(byte => String.fromCharCode(byte)).join('')\<close>), and
  back (\<open>new Uint8Array(data.length).map((byte, i) => data.charCodeAt(i))\<close>): a
  \<open>Uint8Array\<close> keeps the low eight bits of what is stored into it.
\<close>

definition fromCharCodes :: "byte list \<Rightarrow> jsstring" where
  "fromCharCodes bytes = map ucast bytes"

definition charCodes :: "jsstring \<Rightarrow> byte list" where
  "charCodes data = map ucast data"

text \<open>
  \<open>importKey\<close> followed by \<open>deriveKey\<close>, as both \<open>encryptData\<close> and
  \<open>decryptData\<close> call them: PBKDF2, 1000 iterations, SHA-256, a 256-bit AES-GCM key.
\<close>

definition deriveKey :: "crypto \<Rightarrow> byte list \<Rightarrow> byte list \<Rightarrow> error + byte list" where
  "deriveKey c passwordBuffer salt =
     (case pbkdf2 c SHA_256 1000 256 passwordBuffer salt of
        None \<Rightarrow> Inl KeyDerivationError
      | Some derivedKey \<Rightarrow> Inr derivedKey)"

definition encryptData ::
  "crypto \<Rightarrow> jsstring \<Rightarrow> jsstring \<Rightarrow> 'z browser_scheme \<Rightarrow> (error + jsstring) \<times> 'z browser_scheme" where
  "encryptData c data password s =
     (let passwordBuffer = utf8_encode password;
          (salt, s1) = getRandomValues 16 s
      in case deriveKey c passwordBuffer salt of
           Inl e \<Rightarrow> (Inl e, s1)
         | Inr derivedKey \<Rightarrow>
             (let encoded = utf8_encode data;
                  (iv, s2) = getRandomValues 12 s1
              in case aes_gcm_encrypt c derivedKey iv encoded of
                   None \<Rightarrow> (Inl EncryptionError, s2)
                 | Some encryptedArray \<Rightarrow>
                     (Inr (fromCharCodes (salt @ iv @ encryptedArray)), s2)))"

text \<open>\<open>decryptData\<close> slices the bytes without looking at their number.\<close>

definition decryptData :: "crypto \<Rightarrow> jsstring \<Rightarrow> jsstring \<Rightarrow> error + jsstring" where
  "decryptData c data password =
     (let passwordBuffer = utf8_encode password;
          dataArray = charCodes data;
          salt = slice 0 16 dataArray;
          iv = slice 16 28 dataArray;
          encryptedData = drop 28 dataArray
      in case deriveKey c passwordBuffer salt of
           Inl e \<Rightarrow> Inl e
         | Inr derivedKey \<Rightarrow>
             (case aes_gcm_decrypt c derivedKey iv encryptedData of
                None \<Rightarrow> Inl AuthenticationError
              | Some decryptedData \<Rightarrow> Inr (utf8_decode decryptedData)))"

text \<open>The salt and the nonce that \<open>encryptData\<close> draws in a state.\<close>

definition salt_of :: "'z browser_scheme \<Rightarrow> byte list" where
  "salt_of s = fst (getRandomValues 16 s)"

definition iv_of :: "'z browser_scheme \<Rightarrow> byte list" where
  "iv_of s = fst (getRandomValues 12 (snd (getRandomValues 16 s)))"

text \<open>Encrypting under one password and decrypting the blob under another.\<close>

definition decrypt_encrypted ::
  "crypto \<Rightarrow> jsstring \<Rightarrow> jsstring \<Rightarrow> jsstring \<Rightarrow> 'z browser_scheme \<Rightarrow> error + jsstring" where
  "decrypt_encrypted c data password1 password2 s =
     (case fst (encryptData c data password1 s) of
        Inl e \<Rightarrow> Inl e
      | Inr blob \<Rightarrow> decryptData c blob password2)"

section \<open>The encrypted store\<close>

text \<open>
  A codec is the pair of closures \<open>encode\<close> and \<open>decode\<close>; both read the password
  when they run, and \<open>encode\<close> draws random bytes.
\<close>

record ('a, 'z) codec =
  encode :: "'a \<Rightarrow> 'z browser_scheme \<Rightarrow> (error + jsstring) \<times> 'z browser_scheme"
  decode :: "jsstring option \<Rightarrow> 'z browser_scheme \<Rightarrow> error + 'a"

definition getItem :: "jsstring \<Rightarrow> 'z browser_scheme \<Rightarrow> jsstring option \<times> 'z browser_scheme" where
  "getItem name s = (localStorage s name, s\<lparr>storageLog := storageLog s @ [GetItem name]\<rparr>)"

definition setItem :: "jsstring \<Rightarrow> jsstring \<Rightarrow> 'z browser_scheme \<Rightarrow> 'z browser_scheme" where
  "setItem name v s =
     s\<lparr>localStorage := (localStorage s)(name \<mapsto> v), storageLog := storageLog s @ [SetItem name v]\<rparr>"

text \<open>
  The password as \<open>TextEncoder.encode\<close> receives it: \<open>null\<close> is converted to the
  string \<open>null\<close>.
\<close>

definition passwordValue :: "'z browser_scheme \<Rightarrow> jsstring" where
  "passwordValue s = (case storagePassword s of None \<Rightarrow> str ''null'' | Some p \<Rightarrow> p)"

text \<open>
  The default codec: \<open>JSON.stringify\<close> then \<open>encryptData\<close>, and \<open>decryptData\<close>
  then \<open>JSON.parse\<close>. The JSON functions are the platform's and are parameters;
  \<open>decryptData\<close> of \<open>null\<close> throws on \<open>data.length\<close>.
\<close>

definition defaultCodec ::
  "crypto \<Rightarrow> ('a \<Rightarrow> jsstring) \<Rightarrow> (jsstring \<Rightarrow> error + 'a) \<Rightarrow> ('a, 'z) codec" where
  "defaultCodec c stringify parse =
     \<lparr>encode = (\<lambda>data s. encryptData c (stringify data) (passwordValue s) s),
      decode = (\<lambda>data s.
        case data of
          None \<Rightarrow> Inl TypeError
        | Some d \<Rightarrow>
            (case decryptData c d (passwordValue s) of
               Inl e \<Rightarrow> Inl e
             | Inr text \<Rightarrow> parse text))\<rparr>"

text \<open>The handler of \<open>watch(storage, ..., { deep: true, immediate: true })\<close>.\<close>

definition storageWatch :: "('a, 'z) codec \<Rightarrow> jsstring \<Rightarrow> 'a \<Rightarrow> 'z browser_scheme \<Rightarrow> 'z browser_scheme" where
  "storageWatch cd name storage s =
     (case encode cd storage s of
        (Inr blob, s1) \<Rightarrow> setItem name blob s1
      | (Inl e, s1) \<Rightarrow> notify StorageWriteError s1)"

text \<open>
  \<open>useReactiveEncryptedStorage\<close>. \<open>falsy\<close> says which decoded values
  \<open>storage || defaultValue\<close> replaces by the default. The early return hands back
  what \<open>ElMessage.error\<close> returned, not a store: the result \<open>Inl NoPasswordError\<close>.
\<close>

definition useReactiveEncryptedStorage ::
  "('a, 'z) codec \<Rightarrow> ('a \<Rightarrow> bool) \<Rightarrow> jsstring \<Rightarrow> 'a \<Rightarrow> 'z browser_scheme
     \<Rightarrow> (error + 'a) \<times> 'z browser_scheme" where
  "useReactiveEncryptedStorage cd falsy name defaultValue s =
     (if \<not> truthy (storagePassword s) then (Inl NoPasswordError, notify NoPasswordError s)
      else
        (let (item, s1) = getItem name s;
             (storage, s2) =
               (if truthy item then
                  (let (item', s1') = getItem name s1
                   in case decode cd item' s1' of
                        Inr v \<Rightarrow> (Some v, s1')
                      | Inl e \<Rightarrow> (None, notify StorageReadError s1'))
                else (None, s1));
             storage' = (case storage of
                           None \<Rightarrow> defaultValue
                         | Some v \<Rightarrow> if falsy v then defaultValue else v)
         in (Inr storage', storageWatch cd name storage' s2)))"

section \<open>Opening the account registry\<close>

text \<open>
  The codec of \<open>useAccountsStorage\<close> stores the private keys only and rebuilds each
  account with the factory \<open>create\<close>. \<open>parse\<close> stands for \<open>JSON.parse\<close> followed
  by the check that \<open>.map\<close> can run on the result.
\<close>

definition accountsCodec ::
  "crypto \<Rightarrow> (jsstring list \<Rightarrow> jsstring) \<Rightarrow> (jsstring \<Rightarrow> error + jsstring list)
     \<Rightarrow> (jsstring option \<Rightarrow> account) \<Rightarrow> (account list, 'z) codec" where
  "accountsCodec c stringify parse create =
     \<lparr>encode = (\<lambda>data s. encryptData c (stringify (map privateKey data)) (passwordValue s) s),
      decode = (\<lambda>data s.
        case data of
          None \<Rightarrow> Inl TypeError
        | Some d \<Rightarrow>
            (case decryptData c d (passwordValue s) of
               Inl e \<Rightarrow> Inl e
             | Inr text \<Rightarrow>
                 (case parse text of
                    Inl e \<Rightarrow> Inl e
                  | Inr pks \<Rightarrow> Inr (map (\<lambda>pk. create (Some pk)) pks))))\<rparr>"

text \<open>
  \<open>useAccountsStorage\<close> up to the registration of the watch, which runs its
  handler at once. An array is never falsy. When the store did not open, what stands
  in for the account list is the handle of the message, and no registry is built
  here.
\<close>

definition useAccountsStorage ::
  "crypto \<Rightarrow> (jsstring list \<Rightarrow> jsstring) \<Rightarrow> (jsstring \<Rightarrow> error + jsstring list)
     \<Rightarrow> (jsstring option \<Rightarrow> account) \<Rightarrow> (jsstring \<Rightarrow> jsstring) \<Rightarrow> jsstring \<Rightarrow> browser
     \<Rightarrow> error \<times> browser + registry" where
  "useAccountsStorage c stringify parse create toLowerCase blockchain s =
     (case useReactiveEncryptedStorage (accountsCodec c stringify parse create) (\<lambda>_. False)
             (blockchain @ str ''-accounts'') [] s of
        (Inl e, s1) \<Rightarrow> Inl (e, s1)
      | (Inr accs, s1) \<Rightarrow>
          Inr (accountsWatch toLowerCase blockchain
                 \<lparr>storagePassword = storagePassword s1, localStorage = localStorage s1,
                  storageLog = storageLog s1, messages = messages s1,
                  entropy = entropy s1, drawn = drawn s1,
                  accounts = accs, accountsStatus = Map.empty, emitted = []\<rparr>))"

text \<open>
  Two watchers observe the account list, and Vue runs both after every mutation of
  it: the write-back of the store, registered first, and the handler of the
  registry.
\<close>

definition accountsMutated ::
  "crypto \<Rightarrow> (jsstring list \<Rightarrow> jsstring) \<Rightarrow> (jsstring \<Rightarrow> error + jsstring list)
     \<Rightarrow> (jsstring option \<Rightarrow> account) \<Rightarrow> (jsstring \<Rightarrow> jsstring) \<Rightarrow> jsstring \<Rightarrow> registry
     \<Rightarrow> registry" where
  "accountsMutated c stringify parse create toLowerCase blockchain r =
     accountsWatch toLowerCase blockchain
       (storageWatch (accountsCodec c stringify parse create) (blockchain @ str ''-accounts'')
          (accounts r) r)"

text \<open>
  The two operations that mutate the list, with what Vue runs after them.
  \<open>createAddress\<close> always adds an account; \<open>removeAddress\<close> mutates the list
  unless it returned early or spliced an empty list.
\<close>

definition createAddressWatched ::
  "crypto \<Rightarrow> (jsstring list \<Rightarrow> jsstring) \<Rightarrow> (jsstring \<Rightarrow> error + jsstring list)
     \<Rightarrow> (jsstring option \<Rightarrow> account) \<Rightarrow> (jsstring \<Rightarrow> jsstring) \<Rightarrow> jsstring \<Rightarrow> registry
     \<Rightarrow> registry" where
  "createAddressWatched c stringify parse create toLowerCase blockchain r =
     accountsMutated c stringify parse create toLowerCase blockchain (createAddress create r)"

definition removeAddressWatched ::
  "crypto \<Rightarrow> (jsstring list \<Rightarrow> jsstring) \<Rightarrow> (jsstring \<Rightarrow> error + jsstring list)
     \<Rightarrow> (jsstring option \<Rightarrow> account) \<Rightarrow> (jsstring \<Rightarrow> jsstring) \<Rightarrow> jsstring
     \<Rightarrow> jsstring option \<Rightarrow> registry \<Rightarrow> (error + unit) \<times> registry" where
  "removeAddressWatched c stringify parse create toLowerCase blockchain addr r =
     (case removeAddress toLowerCase blockchain addr r of
        (result, r') \<Rightarrow>
          (result,
           if accounts r' = accounts r then r'
           else accountsMutated c stringify parse create toLowerCase blockchain r'))"

text \<open>
  A reload of the page, seen from a registry: \<open>localStorage\<close> and the session's
  password survive, the registry does not.
\<close>

definition reload :: "registry \<Rightarrow> browser" where
  "reload r = \<lparr>storagePassword = storagePassword r, localStorage = localStorage r,
     storageLog = [], messages = [], entropy = entropy r, drawn = drawn r\<rparr>"

text \<open>
  The specification's notions used in the statements below: an account's identity is
  its lower-cased address; an event announces an identity when it is an
  \<open>addAddress\<close> whose address lower-cases to it.
\<close>

definition identity :: "(jsstring \<Rightarrow> jsstring) \<Rightarrow> account \<Rightarrow> jsstring" where
  "identity toLowerCase account = toLowerCase (address account)"

fun announces :: "(jsstring \<Rightarrow> jsstring) \<Rightarrow> jsstring \<Rightarrow> event \<Rightarrow> bool" where
  "announces toLowerCase k (AddAddress b a v) = (toLowerCase a = k)"
| "announces toLowerCase k _ = False"

definition announcement :: "jsstring \<Rightarrow> account \<Rightarrow> event" where
  "announcement blockchain account = AddAddress blockchain (address account) 2"

section \<open>Concrete states for evaluating the model\<close>

definition page0 :: "jsstring option \<Rightarrow> browser" where
  "page0 pw = \<lparr>storagePassword = pw, localStorage = Map.empty, storageLog = [],
     messages = [], entropy = (\<lambda>i. of_nat i), drawn = 0\<rparr>"

definition registry0 :: "account list \<Rightarrow> registry" where
  "registry0 accs = \<lparr>storagePassword = Some (str ''pw''), localStorage = Map.empty,
     storageLog = [], messages = [], entropy = (\<lambda>i. of_nat i), drawn = 0,
     accounts = accs, accountsStatus = Map.empty, emitted = []\<rparr>"

definition acct :: "string \<Rightarrow> account" where
  "acct a = \<lparr>address = str a, privateKey = str ''k''\<rparr>"

text \<open>
  A factory for one address: the account of the given key, or of the key \<open>k\<close> when
  it is called without one.
\<close>

definition create0 :: "string \<Rightarrow> jsstring option \<Rightarrow> account" where
  "create0 a pk = \<lparr>address = str a, privateKey = (case pk of None \<Rightarrow> str ''k'' | Some k \<Rightarrow> k)\<rparr>"

definition sign0 :: "account \<Rightarrow> jsstring \<Rightarrow> jsstring" where
  "sign0 account d = privateKey account @ d"

text \<open>
  An instance of the primitives to run the model on. The key is the password
  followed by the salt. The ciphertext spells the key out, each byte after a
  \<open>1\<close>, closes it with sixteen zero bytes, and carries the plaintext with the
  checksum of the key added to each byte; decryption reads the key back and rejects
  the ciphertext of any other key, and so one of fewer than sixteen bytes. The
  instance stands for the interface of PBKDF2 and AES-GCM (what is accepted, what
  decrypts, what is rejected), not for their security.
\<close>

definition toy_pbkdf2 :: "hash_alg \<Rightarrow> nat \<Rightarrow> nat \<Rightarrow> byte list \<Rightarrow> byte list \<Rightarrow> byte list option" where
  "toy_pbkdf2 h iterations bits password salt =
     (if iterations = 0 \<or> bits mod 8 \<noteq> 0 then None else Some (password @ salt))"

fun seal_key :: "byte list \<Rightarrow> byte list \<Rightarrow> byte list" where
  "seal_key [] body = replicate 16 0 @ body"
| "seal_key (b # k) body = 1 # b # seal_key k body"

fun open_key :: "byte list \<Rightarrow> byte list \<Rightarrow> byte list option" where
  "open_key [] ct = (if take 16 ct = replicate 16 0 then Some (drop 16 ct) else None)"
| "open_key (b # k) (x # y # ct) = (if x = 1 \<and> y = b then open_key k ct else None)"
| "open_key (b # k) ct = None"

definition toy_encrypt :: "byte list \<Rightarrow> byte list \<Rightarrow> byte list \<Rightarrow> byte list option" where
  "toy_encrypt k iv pt = Some (seal_key k (map (\<lambda>b. b + sum_list k) pt))"

definition toy_decrypt :: "byte list \<Rightarrow> byte list \<Rightarrow> byte list \<Rightarrow> byte list option" where
  "toy_decrypt k iv ct = map_option (map (\<lambda>b. b - sum_list k)) (open_key k ct)"

definition toy :: crypto where
  "toy = \<lparr>pbkdf2 = toy_pbkdf2, aes_gcm_encrypt = toy_encrypt, aes_gcm_decrypt = toy_decrypt\<rparr>"

text \<open>
  The same key derivation with a cipher that returns the key it was given, to read
  off which key \<open>encryptData\<close> hands to the cipher; and a second random source that
  agrees with the first on the salt and differs on the nonce.
\<close>

definition reveal :: crypto where
  "reveal = \<lparr>pbkdf2 = toy_pbkdf2, aes_gcm_encrypt = (\<lambda>k iv pt. Some k),
     aes_gcm_decrypt = (\<lambda>k iv ct. None)\<rparr>"

definition page1 :: browser where
  "page1 = \<lparr>storagePassword = None, localStorage = Map.empty, storageLog = [],
     messages = [], entropy = (\<lambda>i. if i < 16 then of_nat i else of_nat (i + 100)), drawn = 0\<rparr>"

text \<open>
  Stand-ins for \<open>JSON.stringify\<close> and \<open>JSON.parse\<close> on a list of keys: each key
  followed by a comma.
\<close>

definition stringify0 :: "jsstring list \<Rightarrow> jsstring" where
  "stringify0 keys = concat (map (\<lambda>k. k @ str '','') keys)"

fun parse_keys :: "jsstring \<Rightarrow> jsstring \<Rightarrow> jsstring list" where
  "parse_keys acc [] = []"
| "parse_keys acc (c # cs) = (if c = 0x2C then acc # parse_keys [] cs else parse_keys (acc @ [c]) cs)"

definition parse0 :: "jsstring \<Rightarrow> error + jsstring list" where
  "parse0 text = Inr (parse_keys [] text)"

section \<open>Text encoding: decoding what was encoded\<close>

lemma unat_byte: "n < 256 \<Longrightarrow> unat (of_nat n :: byte) = n"
  by (simp add: unat_of_nat)

lemma mod_base: "r < m \<Longrightarrow> (k * m + r) mod m = (r::nat)"
  by simp

lemma decoder_start:
  "utf8_decoder cp 0 lower upper (b # bs) =
     (if unat b \<le> 0x7F then unat b # utf8_decoder 0 0 0x80 0xBF bs
      else if 0xC2 \<le> unat b \<and> unat b \<le> 0xDF then utf8_decoder (unat b mod 0x20) 1 0x80 0xBF bs
      else if 0xE0 \<le> unat b \<and> unat b \<le> 0xEF then
        utf8_decoder (unat b mod 0x10) 2 (if unat b = 0xE0 then 0xA0 else 0x80)
          (if unat b = 0xED then 0x9F else 0xBF) bs
      else if 0xF0 \<le> unat b \<and> unat b \<le> 0xF4 then
        utf8_decoder (unat b mod 8) 3 (if unat b = 0xF0 then 0x90 else 0x80)
          (if unat b = 0xF4 then 0x8F else 0xBF) bs
      else 0xFFFD # utf8_decoder 0 0 0x80 0xBF bs)"
  by (simp add: Let_def)

lemma decoder_last:
  "lower \<le> unat b \<Longrightarrow> unat b \<le> upper \<Longrightarrow>
   utf8_decoder cp (Suc 0) lower upper (b # bs) =
     (cp * 0x40 + unat b mod 0x40) # utf8_decoder 0 0 0x80 0xBF bs"
  by (simp add: Let_def)

lemma decoder_more:
  "lower \<le> unat b \<Longrightarrow> unat b \<le> upper \<Longrightarrow> 1 < needed \<Longrightarrow>
   utf8_decoder cp needed lower upper (b # bs) =
     utf8_decoder (cp * 0x40 + unat b mod 0x40) (needed - 1) 0x80 0xBF bs"
  by (simp add: Let_def)

lemma mod_lead:
  "q < 0x20 \<Longrightarrow> (0xC0 + q) mod 0x20 = (q::nat)"
  "q < 0x10 \<Longrightarrow> (0xE0 + q) mod 0x10 = (q::nat)"
  "q < 8 \<Longrightarrow> (0xF0 + q) mod 8 = (q::nat)"
  "q < 0x40 \<Longrightarrow> (0x80 + q) mod 0x40 = (q::nat)"
  using mod_base [of q "0x20" 6] mod_base [of q "0x10" 14] mod_base [of q 8 30]
    mod_base [of q "0x40" 2]
  by simp_all

lemma decoder_one:
  assumes "unat b1 < 0x80"
  shows "utf8_decoder 0 0 0x80 0xBF (b1 # bs) = unat b1 # utf8_decoder 0 0 0x80 0xBF bs"
  using assms by (simp add: decoder_start del: utf8_decoder.simps)

lemma decoder_two:
  assumes "unat b1 = 0xC0 + q" "2 \<le> q" "q < 0x20" "unat b2 = 0x80 + r" "r < 0x40"
  shows "utf8_decoder 0 0 0x80 0xBF (b1 # b2 # bs) = (q * 0x40 + r) # utf8_decoder 0 0 0x80 0xBF bs"
  using assms by (simp add: decoder_start decoder_last mod_lead del: utf8_decoder.simps)

lemma decoder_three:
  assumes "unat b1 = 0xE0 + p" "p < 0x10" "unat b2 = 0x80 + q" "q < 0x40"
    "unat b3 = 0x80 + r" "r < 0x40" "p = 0 \<longrightarrow> 0x20 \<le> q" "p = 0xD \<longrightarrow> q < 0x20"
  shows "utf8_decoder 0 0 0x80 0xBF (b1 # b2 # b3 # bs) =
     ((p * 0x40 + q) * 0x40 + r) # utf8_decoder 0 0 0x80 0xBF bs"
  using assms by (auto simp add: decoder_start decoder_last decoder_more mod_lead simp del: utf8_decoder.simps)

lemma decoder_four:
  assumes "unat b1 = 0xF0 + n" "n < 5" "unat b2 = 0x80 + p" "p < 0x40"
    "unat b3 = 0x80 + q" "q < 0x40" "unat b4 = 0x80 + r" "r < 0x40"
    "n = 0 \<longrightarrow> 0x10 \<le> p" "n = 4 \<longrightarrow> p < 0x10"
  shows "utf8_decoder 0 0 0x80 0xBF (b1 # b2 # b3 # b4 # bs) =
     (((n * 0x40 + p) * 0x40 + q) * 0x40 + r) # utf8_decoder 0 0 0x80 0xBF bs"
  using assms by (auto simp add: decoder_start decoder_last decoder_more mod_lead simp del: utf8_decoder.simps)


lemma digits:
  fixes cp :: nat
  defines "x \<equiv> cp div 0x40"
  shows "cp = x * 0x40 + cp mod 0x40" "cp mod 0x40 < 0x40"
    "cp div 0x1000 = x div 0x40" "cp div 0x40000 = x div 0x40 div 0x40"
    "cp div 0x1000 mod 0x40 = x div 0x40 mod 0x40"
proof -
  show "cp = x * 0x40 + cp mod 0x40" by (simp add: x_def)
  show "cp mod 0x40 < 0x40" by simp
  have "cp div 0x40 div 0x40 = cp div (0x40 * 0x40)" by (rule div_mult2_eq [symmetric])
  then show a: "cp div 0x1000 = x div 0x40" by (simp add: x_def)
  have "cp div 0x1000 div 0x40 = cp div (0x1000 * 0x40)" by (rule div_mult2_eq [symmetric])
  then show "cp div 0x40000 = x div 0x40 div 0x40" using a by simp
  show "cp div 0x1000 mod 0x40 = x div 0x40 mod 0x40" using a by simp
qed

lemma decoder_utf8_bytes:
  assumes "scalar cp"
  shows "utf8_decoder 0 0 0x80 0xBF (utf8_bytes cp @ bs) = cp # utf8_decoder 0 0 0x80 0xBF bs"
proof -
  define x where "x = cp div 0x40"
  define r where "r = cp mod 0x40"
  have cp: "cp = x * 0x40 + r" and r: "r < 0x40"
    unfolding x_def r_def by simp_all
  note br = unat_byte [of "0x80 + r"]
  consider (one) "cp < 0x80" | (two) "0x80 \<le> cp" "cp < 0x800"
    | (three) "0x800 \<le> cp" "cp < 0x10000" | (four) "0x10000 \<le> cp"
    by linarith
  then show ?thesis
  proof cases
    case one
    then have "unat (of_nat cp :: byte) = cp" by (simp add: unat_byte)
    with one show ?thesis by (simp add: utf8_bytes_def decoder_one del: utf8_decoder.simps)
  next
    case two
    have x: "2 \<le> x" "x < 0x20" using two cp r by linarith+
    have b1: "unat (of_nat (0xC0 + x) :: byte) = 0xC0 + x" using x by (intro unat_byte) simp
    have b2: "unat (of_nat (0x80 + r) :: byte) = 0x80 + r" using r by (intro unat_byte) simp
    have "utf8_bytes cp = [of_nat (0xC0 + x), of_nat (0x80 + r)]"
      using two by (simp add: utf8_bytes_def x_def r_def del: of_nat_add)
    then show ?thesis
      using decoder_two [OF b1 x b2 r, of bs] cp by simp
  next
    case three
    define p q where "p = x div 0x40" and "q = x mod 0x40"
    have x: "x = p * 0x40 + q" and q: "q < 0x40" unfolding p_def q_def by simp_all
    have p: "p < 0x10" using three cp x r q by linarith
    have lo: "p = 0 \<longrightarrow> 0x20 \<le> q" using three cp x r q by auto
    have "\<not> (0xD800 \<le> cp \<and> cp \<le> 0xDFFF)" using assms by (simp add: scalar_def)
    then have hi: "p = 0xD \<longrightarrow> q < 0x20" using three cp x r q by auto
    have b1: "unat (of_nat (0xE0 + p) :: byte) = 0xE0 + p" using p by (intro unat_byte) simp
    have b2: "unat (of_nat (0x80 + q) :: byte) = 0x80 + q" using q by (intro unat_byte) simp
    have b3: "unat (of_nat (0x80 + r) :: byte) = 0x80 + r" using r by (intro unat_byte) simp
    have "utf8_bytes cp = [of_nat (0xE0 + p), of_nat (0x80 + q), of_nat (0x80 + r)]"
      using three digits(3) [of cp]
      by (simp add: utf8_bytes_def p_def q_def x_def r_def del: of_nat_add)
    then show ?thesis
      using decoder_three [OF b1 p b2 q b3 r lo hi, of bs] cp x by simp
  next
    case four
    define y where "y = x div 0x40"
    define q where "q = x mod 0x40"
    define n p where "n = y div 0x40" and "p = y mod 0x40"
    have x: "x = y * 0x40 + q" and q: "q < 0x40" unfolding y_def q_def by simp_all
    have y: "y = n * 0x40 + p" and p: "p < 0x40" unfolding n_def p_def by simp_all
    have top: "cp < 0x110000" using assms by (simp add: scalar_def)
    have n: "n < 5" using top cp x y r q p by linarith
    have lo: "n = 0 \<longrightarrow> 0x10 \<le> p" using four cp x y r q p by auto
    have hi: "n = 4 \<longrightarrow> p < 0x10" using top cp x y r q p by auto
    have b1: "unat (of_nat (0xF0 + n) :: byte) = 0xF0 + n" using n by (intro unat_byte) simp
    have b2: "unat (of_nat (0x80 + p) :: byte) = 0x80 + p" using p by (intro unat_byte) simp
    have b3: "unat (of_nat (0x80 + q) :: byte) = 0x80 + q" using q by (intro unat_byte) simp
    have b4: "unat (of_nat (0x80 + r) :: byte) = 0x80 + r" using r by (intro unat_byte) simp
    have "utf8_bytes cp =
        [of_nat (0xF0 + n), of_nat (0x80 + p), of_nat (0x80 + q), of_nat (0x80 + r)]"
      using four digits(3,4) [of cp]
      by (simp add: utf8_bytes_def n_def p_def y_def q_def x_def r_def del: of_nat_add)
    then show ?thesis
      using decoder_four [OF b1 n b2 p b3 q b4 r lo hi, of bs] cp x y by simp
  qed
qed


lemma decoder_encoded:
  "\<forall>cp \<in> set cps. scalar cp \<Longrightarrow>
   utf8_decoder 0 0 0x80 0xBF (concat (map utf8_bytes cps)) = cps"
proof (induction cps)
  case Nil
  show ?case by simp
next
  case (Cons cp cps)
  then show ?case using decoder_utf8_bytes [of cp "concat (map utf8_bytes cps)"] by simp
qed

lemma unat_unit_bound: "unat (c :: code_unit) < 0x10000"
proof -
  have "unat c < 2 ^ LENGTH(16)" by (rule unsigned_less)
  then show ?thesis by simp
qed

lemma scalar_unit: "\<not> is_lead c \<Longrightarrow> \<not> is_trail c \<Longrightarrow> scalar (unat c)"
  using unat_unit_bound [of c] by (auto simp: scalar_def is_lead_def is_trail_def)

lemma scalar_pair:
  "is_lead c \<Longrightarrow> is_trail d \<Longrightarrow>
   scalar (0x10000 + (unat c - 0xD800) * 0x400 + (unat d - 0xDC00))"
  by (auto simp: scalar_def is_lead_def is_trail_def)

lemma scalar_code_points: "\<forall>cp \<in> set (code_points s). scalar cp"
proof (induction s rule: code_points.induct)
  case 1
  show ?case by simp
next
  case (2 c)
  show ?case using scalar_unit [of c] by (simp add: scalar_def)
next
  case (3 c d cs)
  then show ?case using scalar_unit [of c] scalar_pair [of c d] by (simp add: scalar_def)
qed

lemma utf16_unit: "utf16_units (unat (c :: code_unit)) = [c]"
  using unat_unit_bound [of c] by (simp add: utf16_units_def)

lemma utf16_pair:
  assumes "is_lead c" "is_trail d"
  shows "utf16_units (0x10000 + (unat c - 0xD800) * 0x400 + (unat d - 0xDC00)) = [c, d]"
proof -
  define h l where "h = unat c - 0xD800" and "l = unat d - 0xDC00"
  have h: "0xD800 + h = unat c" and l: "0xDC00 + l = unat d" "l < 0x400"
    using assms by (auto simp: h_def l_def is_lead_def is_trail_def)
  have "(h * 0x400 + l) div 0x400 = h" "(h * 0x400 + l) mod 0x400 = l"
    using l(2) by simp_all
  then show ?thesis
    using h l(1) by (simp add: utf16_units_def h_def [symmetric] l_def [symmetric])
qed

lemma utf16_code_points: "well_formed s \<Longrightarrow> concat (map utf16_units (code_points s)) = s"
proof (induction s rule: well_formed.induct)
  case 1
  show ?case by simp
next
  case (2 c)
  then show ?case by (simp add: utf16_unit)
next
  case (3 c d cs)
  show ?case
  proof (cases "is_lead c")
    case True
    with 3 show ?thesis by (simp add: utf16_pair)
  next
    case False
    with 3 show ?thesis by (simp add: utf16_unit)
  qed
qed

lemma strip_bom_code_points:
  assumes "take 1 s \<noteq> [0xFEFF]"
  shows "strip_bom (code_points s) = code_points s"
proof (cases s rule: code_points.cases)
  case 1
  then show ?thesis by (simp add: strip_bom_def)
next
  case (2 c)
  then have "c \<noteq> 0xFEFF" using assms by simp
  then have "unat c \<noteq> 0xFEFF" by (simp add: word_unat_eq_iff)
  with 2 show ?thesis by (simp add: strip_bom_def)
next
  case (3 c d cs)
  then have "c \<noteq> 0xFEFF" using assms by simp
  then have "unat c \<noteq> 0xFEFF" by (simp add: word_unat_eq_iff)
  with 3 show ?thesis by (simp add: strip_bom_def)
qed

lemma utf8_roundtrip:
  assumes "well_formed s" "take 1 s \<noteq> [0xFEFF]"
  shows "utf8_decode (utf8_encode s) = s"
  using assms
  by (simp add: utf8_decode_def utf8_encode_def decoder_encoded scalar_code_points
      strip_bom_code_points utf16_code_points)




section \<open>Encryption: the layout of the blob\<close>

lemma ucast_byte_unit: "(ucast (ucast (b :: byte) :: code_unit) :: byte) = b"
  by (rule ucast_up_ucast_id) (simp add: is_up)

lemma charCodes_fromCharCodes [simp]: "charCodes (fromCharCodes bs) = bs"
  unfolding charCodes_def fromCharCodes_def by (induction bs) (simp_all add: ucast_byte_unit)

lemma length_charCodes [simp]: "length (charCodes data) = length data"
  by (simp add: charCodes_def)

lemma charCodes_take: "charCodes (take n data) = take n (charCodes data)"
  by (simp add: charCodes_def take_map)

lemma charCodes_drop: "charCodes (drop n data) = drop n (charCodes data)"
  by (simp add: charCodes_def drop_map)

lemma getRandomValues_length [simp]: "length (fst (getRandomValues n s)) = n"
  by (simp add: getRandomValues_def)

lemma getRandomValues_drawn [simp]: "drawn (snd (getRandomValues n s)) = drawn s + n"
  by (simp add: getRandomValues_def)

lemma salt_iv_length [simp]: "length (salt_of s) = 16" "length (iv_of s) = 12"
  by (simp_all add: salt_of_def iv_of_def)

lemma encryptData_cases:
  "encryptData c data password s =
     (case pbkdf2 c SHA_256 1000 256 (utf8_encode password) (salt_of s) of
        None \<Rightarrow> (Inl KeyDerivationError, s\<lparr>drawn := drawn s + 16\<rparr>)
      | Some k \<Rightarrow>
          (case aes_gcm_encrypt c k (iv_of s) (utf8_encode data) of
             None \<Rightarrow> (Inl EncryptionError, s\<lparr>drawn := drawn s + 28\<rparr>)
           | Some ct \<Rightarrow> (Inr (fromCharCodes (salt_of s @ iv_of s @ ct)),
                         s\<lparr>drawn := drawn s + 28\<rparr>)))"
  by (simp add: encryptData_def deriveKey_def salt_of_def iv_of_def getRandomValues_def
      Let_def split: option.splits)

lemma decryptData_cases:
  "decryptData c data password =
     (case pbkdf2 c SHA_256 1000 256 (utf8_encode password) (take 16 (charCodes data)) of
        None \<Rightarrow> Inl KeyDerivationError
      | Some k \<Rightarrow>
          (case aes_gcm_decrypt c k (take 12 (drop 16 (charCodes data))) (drop 28 (charCodes data)) of
             None \<Rightarrow> Inl AuthenticationError
           | Some pt \<Rightarrow> Inr (utf8_decode pt)))"
  by (simp add: decryptData_def deriveKey_def slice_def Let_def split: option.splits)

lemma upt_0_16: "[0..<16] = [0, 1, 2, 3, 4, 5, 6, 7, 8, 9, 10, 11, 12, 13, 14, 15]"
  by (simp add: eval_nat_numeral)

lemma replicate_16: "replicate 16 x = [x, x, x, x, x, x, x, x, x, x, x, x, x, x, x, x]"
  by (simp add: eval_nat_numeral)

text \<open>
  The instance of the primitives: it decrypts what it encrypted, rejects under
  another key, rejects what is shorter than sixteen bytes, never rejects a
  derivation, and derives different keys from different passwords.
\<close>

lemma open_seal: "open_key k (seal_key k body) = Some body"
  by (induction k) simp_all



lemma toy_aead:
  "aes_gcm_encrypt toy k iv pt = Some ct \<Longrightarrow> aes_gcm_decrypt toy k iv ct = Some pt"
proof -
  assume "aes_gcm_encrypt toy k iv pt = Some ct"
  then have ct: "ct = seal_key k (map (\<lambda>b. b + sum_list k) pt)"
    by (simp add: toy_def toy_encrypt_def)
  have "map (\<lambda>b. b - sum_list k) (map (\<lambda>b. b + sum_list k) pt) = pt"
    by (induction pt) simp_all
  then show ?thesis by (simp add: toy_def toy_decrypt_def ct open_seal del: map_map)
qed





lemmas eval_defs = decrypt_encrypted_def encryptData_def decryptData_def deriveKey_def
  getRandomValues_def slice_def fromCharCodes_def charCodes_def salt_of_def iv_of_def
  toy_def toy_pbkdf2_def toy_encrypt_def toy_decrypt_def reveal_def page0_def page1_def
  utf8_encode_def utf8_decode_def utf8_bytes_def utf16_units_def strip_bom_def
  is_lead_def is_trail_def str_def Let_def upt_0_16 replicate_16

text \<open>
  Claim C2 (as amended). \<open>encryptData\<close> takes the next sixteen bytes of the random
  source as the salt and the twelve after them as the nonce, so each call draws 28
  bytes no earlier call has seen. The key is PBKDF2 (SHA-256, 1000 iterations, 256
  bits) of the encoded password and the salt; the nonce is no input of it. When
  PBKDF2 and the cipher accept, the call returns the blob salt, nonce, cipher
  output, in that order: its first 16 bytes are the salt, the next 12 the nonce,
  the rest the ciphertext with its tag. It returns no blob only when PBKDF2 or the
  cipher rejects, and then their error.
\<close>

theorem encryptData_layout:
  "(\<forall>key ct.
      pbkdf2 c SHA_256 1000 256 (utf8_encode password) (salt_of s) = Some key \<longrightarrow>
      aes_gcm_encrypt c key (iv_of s) (utf8_encode data) = Some ct \<longrightarrow>
      encryptData c data password s =
        (Inr (fromCharCodes (salt_of s @ iv_of s @ ct)), s\<lparr>drawn := drawn s + 28\<rparr>)) \<and>
   (\<forall>blob s'. encryptData c data password s = (Inr blob, s') \<longrightarrow>
      (\<exists>key ct.
         pbkdf2 c SHA_256 1000 256 (utf8_encode password) (salt_of s) = Some key \<and>
         aes_gcm_encrypt c key (iv_of s) (utf8_encode data) = Some ct \<and>
         blob = fromCharCodes (salt_of s @ iv_of s @ ct))) \<and>
   (pbkdf2 c SHA_256 1000 256 (utf8_encode password) (salt_of s) = None \<longrightarrow>
      fst (encryptData c data password s) = Inl KeyDerivationError) \<and>
   (\<forall>key.
      pbkdf2 c SHA_256 1000 256 (utf8_encode password) (salt_of s) = Some key \<longrightarrow>
      aes_gcm_encrypt c key (iv_of s) (utf8_encode data) = None \<longrightarrow>
      fst (encryptData c data password s) = Inl EncryptionError) \<and>
   (\<forall>ct.
      charCodes (take 16 (fromCharCodes (salt_of s @ iv_of s @ ct))) = salt_of s \<and>
      charCodes (take 12 (drop 16 (fromCharCodes (salt_of s @ iv_of s @ ct)))) = iv_of s \<and>
      charCodes (drop 28 (fromCharCodes (salt_of s @ iv_of s @ ct))) = ct) \<and>
   salt_of s = map (entropy s) [drawn s ..< drawn s + 16] \<and>
   iv_of s = map (entropy s) [drawn s + 16 ..< drawn s + 28] \<and>
   length (salt_of s) = 16 \<and> length (iv_of s) = 12"
proof -
  have parts: "charCodes (take 16 (fromCharCodes (salt_of s @ iv_of s @ ct))) = salt_of s \<and>
      charCodes (take 12 (drop 16 (fromCharCodes (salt_of s @ iv_of s @ ct)))) = iv_of s \<and>
      charCodes (drop 28 (fromCharCodes (salt_of s @ iv_of s @ ct))) = ct" for ct
    by (simp add: charCodes_take charCodes_drop)
  have src: "salt_of s = map (entropy s) [drawn s ..< drawn s + 16]"
      "iv_of s = map (entropy s) [drawn s + 16 ..< drawn s + 28]"
    by (simp_all add: salt_of_def iv_of_def getRandomValues_def ac_simps)
  have ret: "\<forall>blob s'. encryptData c data password s = (Inr blob, s') \<longrightarrow>
      (\<exists>key ct.
         pbkdf2 c SHA_256 1000 256 (utf8_encode password) (salt_of s) = Some key \<and>
         aes_gcm_encrypt c key (iv_of s) (utf8_encode data) = Some ct \<and>
         blob = fromCharCodes (salt_of s @ iv_of s @ ct))"
    by (auto simp: encryptData_cases split: option.splits)
  show ?thesis
    using parts src ret by (simp add: encryptData_cases)
qed

theorem encryptData_layout_witness:
  "pbkdf2 toy SHA_256 1000 256 (utf8_encode (str ''pw'')) (salt_of (page0 None))
     = Some ([112, 119] @ salt_of (page0 None)) \<and>
   salt_of (page0 None) = [0, 1, 2, 3, 4, 5, 6, 7, 8, 9, 10, 11, 12, 13, 14, 15] \<and>
   iv_of (page0 None) = [16, 17, 18, 19, 20, 21, 22, 23, 24, 25, 26, 27] \<and>
   (\<exists>ct. aes_gcm_encrypt toy ([112, 119] @ salt_of (page0 None)) (iv_of (page0 None))
            (utf8_encode (str ''secret'')) = Some ct \<and>
      encryptData toy (str ''secret'') (str ''pw'') (page0 None) =
        (Inr (fromCharCodes (salt_of (page0 None) @ iv_of (page0 None) @ ct)),
         (page0 None)\<lparr>drawn := 28\<rparr>))"
proof -
  have k: "pbkdf2 toy SHA_256 1000 256 (utf8_encode (str ''pw'')) (salt_of (page0 None))
     = Some ([112, 119] @ salt_of (page0 None))"
    by (simp add: toy_def toy_pbkdf2_def utf8_encode_def utf8_bytes_def str_def
        is_lead_def is_trail_def)
  obtain ct where e: "aes_gcm_encrypt toy ([112, 119] @ salt_of (page0 None)) (iv_of (page0 None))
            (utf8_encode (str ''secret'')) = Some ct"
    by (simp add: toy_def toy_encrypt_def)
  have d: "drawn (page0 None) = 0" by (simp add: page0_def)
  have salt: "salt_of (page0 None) = [0, 1, 2, 3, 4, 5, 6, 7, 8, 9, 10, 11, 12, 13, 14, 15]"
    and iv: "iv_of (page0 None) = [16, 17, 18, 19, 20, 21, 22, 23, 24, 25, 26, 27]"
    by (simp_all add: eval_defs)
  from encryptData_layout [of toy "str ''pw''" "page0 None" "str ''secret''"] k e
  have "encryptData toy (str ''secret'') (str ''pw'') (page0 None) =
        (Inr (fromCharCodes (salt_of (page0 None) @ iv_of (page0 None) @ ct)),
         (page0 None)\<lparr>drawn := drawn (page0 None) + 28\<rparr>)"
    by blast
  with k e salt iv d show ?thesis by simp
qed

text \<open>
  The claim as stated has the key derived from the salt and the nonce. The nonce
  is not an input of the derivation: two calls whose salts agree and whose nonces
  differ hand the cipher the same key, the password \<open>pw\<close> (112, 119) followed by
  the salt.
\<close>

theorem key_not_derived_from_nonce:
  "fst (encryptData reveal (str ''secret'') (str ''pw'') (page0 None)) =
     Inr (fromCharCodes
       ([0, 1, 2, 3, 4, 5, 6, 7, 8, 9, 10, 11, 12, 13, 14, 15] @
        [16, 17, 18, 19, 20, 21, 22, 23, 24, 25, 26, 27] @
        [112, 119, 0, 1, 2, 3, 4, 5, 6, 7, 8, 9, 10, 11, 12, 13, 14, 15])) \<and>
   fst (encryptData reveal (str ''secret'') (str ''pw'') page1) =
     Inr (fromCharCodes
       ([0, 1, 2, 3, 4, 5, 6, 7, 8, 9, 10, 11, 12, 13, 14, 15] @
        [116, 117, 118, 119, 120, 121, 122, 123, 124, 125, 126, 127] @
        [112, 119, 0, 1, 2, 3, 4, 5, 6, 7, 8, 9, 10, 11, 12, 13, 14, 15]))"
  by (simp add: eval_defs)

section \<open>Encryption: decrypting what was encrypted\<close>

text \<open>
  Claim C1 (as amended). For a plaintext that is well formed (no surrogate without
  its partner) and does not begin with U+FEFF, and for every password: when
  \<open>encryptData\<close> returns a blob, \<open>decryptData\<close> of that blob under the same
  password returns the plaintext, provided the cipher decrypts what it encrypted
  under the same key and nonce.
\<close>

theorem decrypt_encrypt_roundtrip:
  assumes wf: "well_formed P" and nobom: "take 1 P \<noteq> [0xFEFF]"
    and aead: "\<And>k iv pt ct. aes_gcm_encrypt c k iv pt = Some ct \<Longrightarrow>
                 aes_gcm_decrypt c k iv ct = Some pt"
    and enc: "encryptData c P W s = (Inr blob, s')"
  shows "decryptData c blob W = Inr P"
proof -
  from enc obtain key ct where
    k: "pbkdf2 c SHA_256 1000 256 (utf8_encode W) (salt_of s) = Some key" and
    e: "aes_gcm_encrypt c key (iv_of s) (utf8_encode P) = Some ct" and
    b: "blob = fromCharCodes (salt_of s @ iv_of s @ ct)"
    by (auto simp: encryptData_cases split: option.splits)
  have d: "aes_gcm_decrypt c key (iv_of s) ct = Some (utf8_encode P)" using aead e .
  have "decryptData c blob W = Inr (utf8_decode (utf8_encode P))"
    unfolding decryptData_cases b using k d by simp
  then show ?thesis using wf nobom by (simp add: utf8_roundtrip)
qed

theorem decrypt_encrypt_roundtrip_witness:
  "well_formed (str ''secret'') \<and> take 1 (str ''secret'') \<noteq> [0xFEFF] \<and>
   decrypt_encrypted toy (str ''secret'') (str ''pw'') (str ''pw'') (page0 None)
     = Inr (str ''secret'')"
proof -
  have wf: "well_formed (str ''secret'')" by (simp add: str_def is_lead_def is_trail_def)
  have nb: "take 1 (str ''secret'') \<noteq> [0xFEFF]" by (simp add: str_def)
  obtain blob s' where
    enc: "encryptData toy (str ''secret'') (str ''pw'') (page0 None) = (Inr blob, (s' :: browser))"
    by (simp add: eval_defs)
  from decrypt_encrypt_roundtrip [OF wf nb toy_aead enc]
  have "decryptData toy blob (str ''pw'') = Inr (str ''secret'')" .
  with enc wf nb show ?thesis by (simp add: decrypt_encrypted_def)
qed

text \<open>
  The claim as stated, for every plaintext string, fails on two kinds of string:
  \<open>TextDecoder\<close> drops a leading U+FEFF, and \<open>TextEncoder\<close> replaces a lone
  surrogate by U+FFFD.
\<close>

theorem roundtrip_loses_bom_and_lone_surrogate:
  "decrypt_encrypted toy [0xFEFF] (str ''pw'') (str ''pw'') (page0 None) = Inr [] \<and>
   decrypt_encrypted toy [0xD800] (str ''pw'') (str ''pw'') (page0 None) = Inr [0xFFFD]"
  by (simp add: eval_defs)

text \<open>The loss is the text codec's, whatever the primitives.\<close>

lemma text_codec_loses:
  "utf8_decode (utf8_encode [0xFEFF]) = []" "utf8_decode (utf8_encode [0xD800]) = [0xFFFD]"
  by (simp_all add: eval_defs)

section \<open>Encryption: short blobs\<close>




section \<open>Encryption: another password\<close>




lemma same_encoding_same_result:
  "utf8_encode W1 = utf8_encode W2 \<Longrightarrow>
   decrypt_encrypted c P W1 W2 s = decrypt_encrypted c P W1 W1 s"
  by (simp add: decrypt_encrypted_def decryptData_cases split: sum.splits)

lemma lone_surrogates_encode_alike: "utf8_encode [0xD800] = utf8_encode [0xDC00]"
  by (simp add: eval_defs)

section \<open>Key derivation\<close>

text \<open>
  Claim C6 (as amended). The derivation has no guard of its own. Both
  \<open>encryptData\<close> and \<open>decryptData\<close> give the encoded password, empty or not, and
  the salt (sixteen random bytes; the first bytes of the blob, sixteen at most) to
  PBKDF2 with SHA-256, 1000 iterations and 256 bits, and fail with the derivation's
  error exactly when PBKDF2 rejects; the derived key is PBKDF2's result, a function
  of password and salt.
\<close>

theorem key_derivation_unguarded:
  "(fst (encryptData c data W s) = Inl KeyDerivationError \<longleftrightarrow>
      pbkdf2 c SHA_256 1000 256 (utf8_encode W) (salt_of s) = None) \<and>
   (decryptData c blob W = Inl KeyDerivationError \<longleftrightarrow>
      pbkdf2 c SHA_256 1000 256 (utf8_encode W) (charCodes (take 16 blob)) = None) \<and>
   (deriveKey c passwordBuffer salt = Inr k \<longleftrightarrow>
      pbkdf2 c SHA_256 1000 256 passwordBuffer salt = Some k) \<and>
   (deriveKey c passwordBuffer salt = Inl e \<longleftrightarrow>
      e = KeyDerivationError \<and> pbkdf2 c SHA_256 1000 256 passwordBuffer salt = None)"
  by (auto simp: encryptData_cases decryptData_cases deriveKey_def charCodes_take
      split: option.splits)

text \<open>
  The claim as stated fails: with the empty password, and with a salt of five
  bytes, the derivation returns a key.
\<close>

theorem empty_password_short_salt_derive:
  "utf8_encode [] = [] \<and>
   deriveKey toy (utf8_encode []) [0, 1, 2, 3, 4, 5, 6, 7, 8, 9, 10, 11, 12, 13, 14, 15]
     = Inr [0, 1, 2, 3, 4, 5, 6, 7, 8, 9, 10, 11, 12, 13, 14, 15] \<and>
   fst (encryptData toy (str ''secret'') [] (page0 None)) \<noteq> Inl KeyDerivationError \<and>
   deriveKey toy (utf8_encode (str ''pw'')) [1, 2, 3, 4, 5] = Inr [112, 119, 1, 2, 3, 4, 5] \<and>
   decryptData toy (str ''short'') (str ''pw'') \<noteq> Inl KeyDerivationError"
  by (simp add: eval_defs)

section \<open>The encrypted store: no password\<close>

text \<open>
  Claim C7. With no password set (\<open>null\<close> or the empty string),
  \<open>useReactiveEncryptedStorage\<close> returns at once with \<open>NoPasswordError\<close>, for every
  codec, name and default value: it shows the message and does nothing else.
  \<open>localStorage\<close> is neither read nor written, and no random byte is drawn.
\<close>

theorem no_password_no_io:
  assumes "\<not> truthy (storagePassword s)"
  shows "useReactiveEncryptedStorage cd falsy name defaultValue s =
           (Inl NoPasswordError, notify NoPasswordError s) \<and>
         localStorage (snd (useReactiveEncryptedStorage cd falsy name defaultValue s))
           = localStorage s \<and>
         storageLog (snd (useReactiveEncryptedStorage cd falsy name defaultValue s))
           = storageLog s \<and>
         drawn (snd (useReactiveEncryptedStorage cd falsy name defaultValue s)) = drawn s"
  using assms by (simp add: useReactiveEncryptedStorage_def notify_def)

theorem no_password_no_io_witness:
  "\<not> truthy (storagePassword ((page0 (Some []))\<lparr>localStorage := [str ''notes'' \<mapsto> str ''blob'']\<rparr>)) \<and>
   useReactiveEncryptedStorage (defaultCodec toy id Inr) (\<lambda>v. v = []) (str ''notes'') (str ''{}'')
       ((page0 (Some []))\<lparr>localStorage := [str ''notes'' \<mapsto> str ''blob'']\<rparr>)
     = (Inl NoPasswordError,
        (page0 (Some []))\<lparr>localStorage := [str ''notes'' \<mapsto> str ''blob''],
                            messages := [NoPasswordError]\<rparr>)"
proof -
  have h: "\<not> truthy (storagePassword
      ((page0 (Some []))\<lparr>localStorage := [str ''notes'' \<mapsto> str ''blob'']\<rparr>))"
    by (simp add: truthy_def page0_def)
  from no_password_no_io [OF h, of "defaultCodec toy id Inr" "\<lambda>v. v = []" "str ''notes''" "str ''{}''"] h
  show ?thesis by (simp add: notify_def page0_def)
qed

text \<open>With a password, the same call reads the slot and writes it back.\<close>

lemma with_password_reads_and_writes:
  "storageLog (snd (useReactiveEncryptedStorage (defaultCodec toy id Inr) (\<lambda>v. v = [])
       (str ''notes'') (str ''{}'') (page0 (Some (str ''pw'')))))
   = [GetItem (str ''notes''),
      SetItem (str ''notes'')
        (case fst (encryptData toy (str ''{}'') (str ''pw'') (page0 (Some (str ''pw'')))) of
           Inr blob \<Rightarrow> blob | Inl e \<Rightarrow> [])]"
  by (simp add: useReactiveEncryptedStorage_def storageWatch_def defaultCodec_def getItem_def
      setItem_def truthy_def passwordValue_def eval_defs)

section \<open>The account registry: inbound challenges\<close>

text \<open>
  Claim C10. An inbound \<open>addressAuthChallenge\<close> whose payload blockchain differs,
  compared in lower case, from the registry's blockchain is ignored: nothing is
  emitted, no message is shown, and the account list and the status map stay as
  they are.
\<close>

theorem addressAuthChallenge_other_blockchain:
  "toLowerCase (payload_blockchain message) \<noteq> toLowerCase blockchain \<Longrightarrow>
   addressAuthChallenge toLowerCase blockchain sign message r = r \<and>
   emitted (addressAuthChallenge toLowerCase blockchain sign message r) = emitted r \<and>
   accounts (addressAuthChallenge toLowerCase blockchain sign message r) = accounts r \<and>
   accountsStatus (addressAuthChallenge toLowerCase blockchain sign message r) = accountsStatus r"
  by (simp add: addressAuthChallenge_def)

theorem addressAuthChallenge_other_blockchain_witness:
  "asciiLowerCase (str ''BTC'') \<noteq> asciiLowerCase (str ''eth'') \<and>
   addressAuthChallenge asciiLowerCase (str ''eth'') sign0
     \<lparr>messageId = str ''m1'', payload_blockchain = str ''BTC'',
      payload_address = str ''0xaa'', dataToSign = str ''nonce''\<rparr>
     (registry0 [acct ''0xaa'']) = registry0 [acct ''0xaa'']"
proof -
  have h: "asciiLowerCase (payload_blockchain
       \<lparr>messageId = str ''m1'', payload_blockchain = str ''BTC'',
        payload_address = str ''0xaa'', dataToSign = str ''nonce''\<rparr>)
     \<noteq> asciiLowerCase (str ''eth'')"
    by (simp add: asciiLowerCase_def str_def lower_unit_def)
  show ?thesis
    using h addressAuthChallenge_other_blockchain [OF h, of sign0 "registry0 [acct ''0xaa'']"]
    by simp
qed

section \<open>The account registry: removing an address\<close>

lemma indexOf_undefined: "indexOf (map Some xs) None = -1"
  by (induction xs) simp_all

lemma splice_last: "splice (-1) 1 xs = butlast xs"
  by (cases xs rule: rev_cases) (simp_all add: splice_def Let_def)

text \<open>
  With an address that is a non-empty string and matches no account, \<open>removeAddress\<close>
  passes its guard, tells the peer, and splices at index \<open>-1\<close>: the last account of
  the list goes.
\<close>

lemma removeAddress_absent:
  "getAccountByAddress toLowerCase (accounts r) (Some a) = None \<Longrightarrow> a \<noteq> [] \<Longrightarrow>
   removeAddress toLowerCase blockchain (Some a) r =
     (Inr (), r\<lparr>emitted := emitted r @ [RemoveAddress blockchain a],
                accountsStatus := (accountsStatus r)(toLowerCase a := None),
                accounts := butlast (accounts r)\<rparr>)"
  by (simp add: removeAddress_def truthy_def emit_def indexOf_undefined splice_last)

text \<open>
  Claim C3 (the code departs from it). The claim: removing an address that is not in
  the list fails with \<open>AddressNotFoundError\<close> and changes nothing. The code, on the
  list of the accounts \<open>0xaa\<close> and \<open>0xbb\<close> and the absent address \<open>0xdead\<close>:
  it reports success, emits \<open>removeAddress\<close> to the peer, and drops \<open>0xbb\<close>.
\<close>

theorem removeAddress_absent_drops_last:
  "removeAddress asciiLowerCase (str ''eth'') (Some (str ''0xdead''))
       (registry0 [acct ''0xaa'', acct ''0xbb'']) =
     (Inr (), (registry0 [acct ''0xaa''])\<lparr>emitted := [RemoveAddress (str ''eth'') (str ''0xdead'')]\<rparr>)"
  by (simp add: removeAddress_def registry0_def acct_def getAccountByAddress_def truthy_def
      emit_def splice_def asciiLowerCase_def str_def lower_unit_def)

section \<open>The account registry: the keys of the status map\<close>

text \<open>
  Claim C8 (the code departs from it). The claim: every operation lower-cases the
  address before it uses it as a key of the status map. The watch handler and the two
  inbound handlers do; \<open>reconnectAllAddresses\<close> and \<open>reconnectAddress\<close> use the
  address as it is. On the account \<open>0xAB\<close> both leave the key \<open>0xAB\<close>, which is not
  its own lower-casing.
\<close>

theorem reconnect_key_keeps_case:
  "dom (accountsStatus (reconnectAllAddresses (str ''eth'') (registry0 [acct ''0xAB''])))
     = {str ''0xAB''} \<and>
   dom (accountsStatus (snd (reconnectAddress asciiLowerCase (str ''eth'') (Some (str ''0xAB''))
                               (registry0 [acct ''0xAB'']))))
     = {str ''0xAB''} \<and>
   asciiLowerCase (str ''0xAB'') \<noteq> str ''0xAB''"
  by (simp add: reconnectAllAddresses_def reconnectAddress_def getAccountByAddress_def
      registry0_def acct_def emit_def asciiLowerCase_def str_def lower_unit_def)

section \<open>The account registry: the watch on the account list\<close>

lemma announceEach_accounts [simp]: "accounts (announceEach lc bc as r) = accounts r"
  by (induction as arbitrary: r) (simp_all add: emit_def)

lemma announceEach_status:
  "accountsStatus (announceEach lc bc as r) k =
     (if accountsStatus r k = None \<and> k \<in> identity lc ` set as then Some AUTHORIZING
      else accountsStatus r k)"
  by (induction as arbitrary: r) (auto simp: emit_def identity_def)

lemma announceEach_emitted_prefix:
  "\<exists>new. emitted (announceEach lc bc as r) = emitted r @ new \<and>
     (\<forall>e \<in> set new. \<exists>a \<in> set as. e = announcement bc a)"
proof (induction as arbitrary: r)
  case Nil
  show ?case by simp
next
  case (Cons a as)
  let ?r1 = "if accountsStatus r (lc (address a)) = None
        then emit (AddAddress bc (address a) version)
               (r\<lparr>accountsStatus := (accountsStatus r)(lc (address a) \<mapsto> AUTHORIZING)\<rparr>)
        else r"
  from Cons.IH [of ?r1] obtain new where
    n: "emitted (announceEach lc bc as ?r1) = emitted ?r1 @ new"
       "\<forall>e \<in> set new. \<exists>a \<in> set as. e = announcement bc a" by blast
  show ?case
  proof (cases "accountsStatus r (lc (address a)) = None")
    case True
    with n have "emitted (announceEach lc bc (a # as) r) = emitted r @ (announcement bc a # new)"
      by (simp add: emit_def announcement_def version_def)
    moreover have "\<forall>e \<in> set (announcement bc a # new). \<exists>x \<in> set (a # as). e = announcement bc x"
      using n(2) by auto
    ultimately show ?thesis by blast
  next
    case False
    with n have "emitted (announceEach lc bc (a # as) r) = emitted r @ new" by auto
    moreover have "\<forall>e \<in> set new. \<exists>x \<in> set (a # as). e = announcement bc x"
      using n(2) by auto
    ultimately show ?thesis by blast
  qed
qed

lemma announceEach_count:
  "length (filter (announces lc k) (emitted (announceEach lc bc as r))) =
     length (filter (announces lc k) (emitted r)) +
     (if accountsStatus r k = None \<and> k \<in> identity lc ` set as then 1 else 0)"
  by (induction as arbitrary: r) (auto simp: emit_def identity_def)

lemma announceEach_emitted_distinct:
  "distinct (map (identity lc) as) \<Longrightarrow>
   emitted (announceEach lc bc as r) =
     emitted r @ map (announcement bc) (filter (\<lambda>a. accountsStatus r (identity lc a) = None) as)"
proof (induction as arbitrary: r)
  case Nil
  show ?case by simp
next
  case (Cons a as)
  have "identity lc a \<notin> set (map (identity lc) as)" using Cons.prems by simp
  then have fresh: "\<forall>x \<in> set as. identity lc x \<noteq> identity lc a"
    by (metis image_eqI set_map)
  have d: "distinct (map (identity lc) as)" using Cons.prems by simp
  show ?case
  proof (cases "accountsStatus r (identity lc a) = None")
    case True
    let ?r1 = "emit (AddAddress bc (address a) version)
               (r\<lparr>accountsStatus := (accountsStatus r)(lc (address a) \<mapsto> AUTHORIZING)\<rparr>)"
    have "filter (\<lambda>x. accountsStatus ?r1 (identity lc x) = None) as
          = filter (\<lambda>x. accountsStatus r (identity lc x) = None) as"
      using fresh by (intro filter_cong) (auto simp: emit_def identity_def)
    with True Cons.IH [OF d, of ?r1] show ?thesis
      by (simp add: identity_def emit_def announcement_def version_def)
  next
    case False
    with Cons.IH [OF d, of r] show ?thesis by (auto simp: identity_def)
  qed
qed

text \<open>
  One run of the handler, for any lower-casing function. It only appends to the
  emitted events, each appended event being an \<open>addAddress\<close> of the registry's
  blockchain, the address of an account of the list and version 2. An account whose
  lower-cased address had no entry in the status map is marked \<open>AUTHORIZING\<close> and
  its identity is announced exactly once; an account whose lower-cased address had
  an entry keeps it and is not announced. When no two accounts share an identity,
  the new events are the announcements of the untracked accounts, in list order.
\<close>

lemma accountsWatch_run:
  "let r' = accountsWatch lc blockchain r;
       new = drop (length (emitted r)) (emitted r')
   in emitted r' = emitted r @ new \<and> accounts r' = accounts r \<and>
      (\<forall>e \<in> set new. \<exists>a \<in> set (accounts r). e = AddAddress blockchain (address a) 2) \<and>
      (\<forall>a \<in> set (accounts r).
         (accountsStatus r (identity lc a) = None \<longrightarrow>
            accountsStatus r' (identity lc a) = Some AUTHORIZING \<and>
            length (filter (announces lc (identity lc a)) new) = 1) \<and>
         (accountsStatus r (identity lc a) \<noteq> None \<longrightarrow>
            accountsStatus r' (identity lc a) = accountsStatus r (identity lc a) \<and>
            filter (announces lc (identity lc a)) new = [])) \<and>
      (distinct (map (identity lc) (accounts r)) \<longrightarrow>
         new = map (announcement blockchain)
                 (filter (\<lambda>a. accountsStatus r (identity lc a) = None) (accounts r)))"
proof -
  define r' where "r' = accountsWatch lc blockchain r"
  define new where "new = drop (length (emitted r)) (emitted r')"
  obtain n where n: "emitted r' = emitted r @ n"
      "\<forall>e \<in> set n. \<exists>a \<in> set (accounts r). e = announcement blockchain a"
    using announceEach_emitted_prefix [of lc blockchain "accounts r" r]
    unfolding r'_def accountsWatch_def by blast
  have new: "new = n" by (simp add: new_def n(1))
  have e: "emitted r' = emitted r @ new" by (simp add: new n(1))
  have cnt: "length (filter (announces lc k) new) =
      (if accountsStatus r k = None \<and> k \<in> identity lc ` set (accounts r) then 1 else 0)" for k
    using announceEach_count [of lc k blockchain "accounts r" r] e
    unfolding r'_def accountsWatch_def by simp
  have st: "accountsStatus r' k =
     (if accountsStatus r k = None \<and> k \<in> identity lc ` set (accounts r) then Some AUTHORIZING
      else accountsStatus r k)" for k
    unfolding r'_def accountsWatch_def by (rule announceEach_status)
  have a: "accounts r' = accounts r" by (simp add: r'_def accountsWatch_def)
  have wf: "\<forall>e \<in> set new. \<exists>a \<in> set (accounts r). e = AddAddress blockchain (address a) 2"
    using n(2) by (simp add: new announcement_def)
  have per: "\<forall>a \<in> set (accounts r).
         (accountsStatus r (identity lc a) = None \<longrightarrow>
            accountsStatus r' (identity lc a) = Some AUTHORIZING \<and>
            length (filter (announces lc (identity lc a)) new) = 1) \<and>
         (accountsStatus r (identity lc a) \<noteq> None \<longrightarrow>
            accountsStatus r' (identity lc a) = accountsStatus r (identity lc a) \<and>
            filter (announces lc (identity lc a)) new = [])"
  proof
    fix a assume "a \<in> set (accounts r)"
    then have "identity lc a \<in> identity lc ` set (accounts r)" by simp
    then show "(accountsStatus r (identity lc a) = None \<longrightarrow>
            accountsStatus r' (identity lc a) = Some AUTHORIZING \<and>
            length (filter (announces lc (identity lc a)) new) = 1) \<and>
         (accountsStatus r (identity lc a) \<noteq> None \<longrightarrow>
            accountsStatus r' (identity lc a) = accountsStatus r (identity lc a) \<and>
            filter (announces lc (identity lc a)) new = [])"
      using cnt [of "identity lc a"] st [of "identity lc a"] by auto
  qed
  have dist: "distinct (map (identity lc) (accounts r)) \<longrightarrow>
         new = map (announcement blockchain)
                 (filter (\<lambda>a. accountsStatus r (identity lc a) = None) (accounts r))"
    using announceEach_emitted_distinct [of lc "accounts r" blockchain r] e
    unfolding r'_def accountsWatch_def by simp
  show ?thesis
    using e a wf per dist unfolding Let_def r'_def [symmetric] new_def [symmetric] by blast
qed

text \<open>
  The handler runs at the hydration and after the mutations: opening the registry
  is one run of it on the decrypted list with an empty status map, and the two
  mutating operations end with a run of it on the new list.
\<close>

lemma storageWatch_accountsCodec:
  "accounts (storageWatch (accountsCodec c stringify parse create) name v r) = accounts r"
  "accountsStatus (storageWatch (accountsCodec c stringify parse create) name v r) = accountsStatus r"
  "emitted (storageWatch (accountsCodec c stringify parse create) name v r) = emitted r"
  by (simp_all add: storageWatch_def accountsCodec_def encryptData_cases setItem_def notify_def
      split: option.splits)

lemma useAccountsStorage_hydrates:
  assumes "useAccountsStorage c stringify parse create lc blockchain s = Inr r"
  shows "\<exists>r0. r = accountsWatch lc blockchain r0 \<and> accounts r0 = accounts r \<and>
           accountsStatus r0 = Map.empty \<and> emitted r0 = []"
    and "\<forall>a \<in> set (accounts r). accountsStatus r (identity lc a) = Some AUTHORIZING"
    and "\<forall>e \<in> set (emitted r). \<exists>a \<in> set (accounts r). e = AddAddress blockchain (address a) 2"
proof -
  obtain res s1 where
    u: "useReactiveEncryptedStorage (accountsCodec c stringify parse create) (\<lambda>_. False)
          (blockchain @ str ''-accounts'') [] s = (res, s1)"
    by (cases "useReactiveEncryptedStorage (accountsCodec c stringify parse create) (\<lambda>_. False)
          (blockchain @ str ''-accounts'') [] s") blast
  obtain accs where res: "res = Inr accs"
    using assms u by (cases res) (simp_all add: useAccountsStorage_def)
  define r0 where "r0 = \<lparr>storagePassword = storagePassword s1, localStorage = localStorage s1,
           storageLog = storageLog s1, messages = messages s1,
           entropy = entropy s1, drawn = drawn s1,
           accounts = accs, accountsStatus = Map.empty, emitted = []\<rparr>"
  have r: "r = accountsWatch lc blockchain r0"
    using assms u res by (simp add: useAccountsStorage_def r0_def)
  have r0: "accounts r0 = accs" "accountsStatus r0 = Map.empty" "emitted r0 = []"
    by (simp_all add: r0_def)
  show "\<exists>r0. r = accountsWatch lc blockchain r0 \<and> accounts r0 = accounts r \<and>
           accountsStatus r0 = Map.empty \<and> emitted r0 = []"
    using r r0 by (auto simp: accountsWatch_def)
  show "\<forall>a \<in> set (accounts r). accountsStatus r (identity lc a) = Some AUTHORIZING"
    unfolding r accountsWatch_def using r0 by (simp add: announceEach_status)
  show "\<forall>e \<in> set (emitted r). \<exists>a \<in> set (accounts r). e = AddAddress blockchain (address a) 2"
    unfolding r accountsWatch_def
    using announceEach_emitted_prefix [of lc blockchain accs r0] r0
    by (auto simp: announcement_def)
qed

lemma createAddressWatched_runs_handler:
  "\<exists>r0. createAddressWatched c stringify parse create lc blockchain r = accountsWatch lc blockchain r0 \<and>
     accounts r0 = accounts r @ [create None] \<and> accountsStatus r0 = accountsStatus r \<and>
     emitted r0 = emitted r"
  by (auto simp: createAddressWatched_def accountsMutated_def createAddress_def
      storageWatch_accountsCodec)

text \<open>The writers of the status map that do lower-case the key.\<close>

lemma lowercasing_writers:
  "dom (accountsStatus (addressAuthChallengeFailed lc a r)) = insert (lc a) (dom (accountsStatus r))"
  "dom (accountsStatus (addressAuthChallengeSuccess lc a r)) = insert (lc a) (dom (accountsStatus r))"
  "dom (accountsStatus (accountsWatch lc bc r)) = dom (accountsStatus r) \<union> identity lc ` set (accounts r)"
  by (auto simp: addressAuthChallengeFailed_def addressAuthChallengeSuccess_def accountsWatch_def
      announceEach_status dom_def)

text \<open>
  Claim C9 (the code departs from it). The claim: after every mutation of the
  list, accounts without a status entry are marked and announced, and accounts that
  have one are neither marked nor announced again. The handler looks the entry up
  under the lower-cased address, and \<open>reconnectAllAddresses\<close> writes it under the
  address as it is (the defect of claim C8). Open the registry on the password
  \<open>pw\<close> and an empty store, create the account \<open>0xAB\<close>, and reload the page: the
  hydration decrypts the list and announces \<open>0xAB\<close>. Let the socket disconnect and
  connect: the account has the entry \<open>0xAB\<close>. Create a second account, \<open>0xCD\<close>:
  the handler marks \<open>0xAB\<close> again, under \<open>0xab\<close>, and announces it again.
\<close>

theorem reconnected_account_announced_again:
  "case useAccountsStorage toy stringify0 parse0 (create0 ''0xAB'') asciiLowerCase (str ''eth'')
          (page0 (Some (str ''pw''))) of
     Inl failure \<Rightarrow> False
   | Inr opened \<Rightarrow>
       (case useAccountsStorage toy stringify0 parse0 (create0 ''0xAB'') asciiLowerCase (str ''eth'')
               (reload (createAddressWatched toy stringify0 parse0 (create0 ''0xAB'')
                          asciiLowerCase (str ''eth'') opened)) of
          Inl failure \<Rightarrow> False
        | Inr hydrated \<Rightarrow>
            (let r1 = onConnect (str ''eth'') (onDisconnect hydrated);
                 r2 = createAddressWatched toy stringify0 parse0 (create0 ''0xCD'') asciiLowerCase
                        (str ''eth'') r1
             in accounts hydrated = [acct ''0xAB''] \<and>
                emitted hydrated = [AddAddress (str ''eth'') (str ''0xAB'') 2] \<and>
                dom (accountsStatus hydrated) = {str ''0xab''} \<and>
                accountsStatus r1 (str ''0xAB'') = Some AUTHORIZING \<and>
                dom (accountsStatus r1) = {str ''0xAB''} \<and>
                accounts r2 = [acct ''0xAB'', acct ''0xCD''] \<and>
                emitted r2 = emitted r1 @ [AddAddress (str ''eth'') (str ''0xAB'') 2,
                                           AddAddress (str ''eth'') (str ''0xCD'') 2] \<and>
                dom (accountsStatus r2) = {str ''0xcd'', str ''0xab'', str ''0xAB''}))"
  by (simp add: useAccountsStorage_def useReactiveEncryptedStorage_def storageWatch_def
      accountsCodec_def getItem_def setItem_def truthy_def passwordValue_def stringify0_def
      parse0_def reload_def create0_def
      createAddressWatched_def accountsMutated_def createAddress_def accountsWatch_def
      onConnect_def onDisconnect_def reconnectAllAddresses_def emit_def version_def acct_def
      asciiLowerCase_def lower_unit_def eval_defs)

end
